theory Spec2Isabelle
  imports Main "HOL-Library.Sublist"
begin

text \<open>
  The configuration store of the command-line client (\<open>lib/config.ts\<close>: the schema,
  \<open>read\<close>, \<open>write\<close>, \<open>get\<close>, \<open>set\<close>, \<open>remove\<close>, \<open>clear\<close>, \<open>getKeys\<close>
  and \<open>paths\<close>) and the resolution of the API key in \<open>act\<close>, as functions on an
  explicit file system, credential store and environment. A call returns its result,
  an error or a value, together with the state it leaves.
\<close>

section \<open>JavaScript values\<close>

text \<open>
  The YAML parser hands \<open>read\<close> an arbitrary JavaScript value, and the immutable
  object-path helpers work on plain objects. An object keeps its keys in insertion
  order, so it is an association list; looking a property up is \<open>map_of\<close>, and a
  property that is not there reads as \<open>undefined\<close>. Numbers are the integers a
  settings file holds.
\<close>

datatype jsval =
    JUndefined
  | JNull
  | JBool bool
  | JNum int
  | JStr string
  | JArr "jsval list"
  | JObj "(string \<times> jsval) list"

text \<open>JavaScript truthiness, as \<open>if (x)\<close> and \<open>!x\<close> test it.\<close>

fun js_truthy :: "jsval \<Rightarrow> bool" where
  "js_truthy JUndefined = False"
| "js_truthy JNull = False"
| "js_truthy (JBool b) = b"
| "js_truthy (JNum n) = (n \<noteq> 0)"
| "js_truthy (JStr s) = (s \<noteq> [])"
| "js_truthy (JArr xs) = True"
| "js_truthy (JObj kvs) = True"

text \<open>
  A value of type \<open>string | undefined\<close> is a \<open>string option\<close>; it is truthy when
  it is a non-empty string.
\<close>

definition truthy :: "string option \<Rightarrow> bool" where
  "truthy v = (case v of None \<Rightarrow> False | Some s \<Rightarrow> s \<noteq> [])"

section \<open>Collaborators of the config module\<close>

subsection \<open>The credential store (\<open>lib/credentials.ts\<close>)\<close>

text \<open>
  Modelled from the spec: \<open>lib/credentials.ts\<close> is not among the sources. The
  spec describes it as a mapping of team identifier to secret value, with
  \<open>get(team)\<close> giving the secret or absent and \<open>list()\<close> giving the ordered
  sequence of team identifiers. The store is an association list from team to secret.
\<close>

type_synonym creds = "(string \<times> string) list"

definition credentials_get :: "creds \<Rightarrow> string \<Rightarrow> string option" where
  "credentials_get store t = map_of store t"

definition credentials_list :: "creds \<Rightarrow> string list" where
  "credentials_list store = map fst store"

subsection \<open>The fuzzy matcher (\<open>closest\<close> of \<open>lib/util.ts\<close>)\<close>

text \<open>
  Modelled from the spec: \<open>lib/util.ts\<close> is not among the sources. The spec
  describes \<open>closest(candidates, input)\<close> as the candidate with the minimum
  Levenshtein distance to \<open>input\<close>, absent if there is no candidate, ties broken
  by first occurrence in the candidate sequence.
\<close>

fun levenshtein :: "string \<Rightarrow> string \<Rightarrow> nat" where
  "levenshtein [] ys = length ys"
| "levenshtein (x # xs) [] = Suc (length xs)"
| "levenshtein (x # xs) (y # ys) =
     min (Suc (levenshtein xs (y # ys)))
       (min (Suc (levenshtein (x # xs) ys))
         (levenshtein xs ys + (if x = y then 0 else 1)))"

fun closest :: "string list \<Rightarrow> string \<Rightarrow> string option" where
  "closest [] input = None"
| "closest (c # cs) input =
     (case closest cs input of
        None \<Rightarrow> Some c
      | Some d \<Rightarrow> if levenshtein input c \<le> levenshtein input d then Some c else Some d)"

subsection \<open>Terminal styling (\<open>lib/ansi.ts\<close>)\<close>

text \<open>
  \<open>bold\<close> is re-exported from the cliffy colour library: the text between the
  escape sequences that switch bold on and off.
\<close>

definition bold :: "string \<Rightarrow> string" where
  "bold s = CHR 0x1B # ''[1m'' @ s @ CHR 0x1B # ''[22m''"

section \<open>The schema of the config document (\<open>lib/config.ts\<close>)\<close>

text \<open>
  \<open>z.infer<typeof schema>\<close>: the validated document. The errors are the ones the
  module can meet: the YAML parser's, zod's own validation error, the module's
  \<open>ConfigError\<close> with its message, the \<open>TypeError\<close> of the runtime, and the
  \<open>Error\<close> that zod throws when a synchronous parse meets an asynchronous effect.
\<close>

record config =
  version :: int
  team :: "string option"

datatype error = YAMLError | ZodError | ConfigError string | TypeError | SyncParseError

text \<open>
  The message of the \<open>ConfigError\<close> that the \<open>team\<close> transform throws. The
  template literal spans two lines; \<open>didYouMean\<close> is empty unless \<open>closest\<close>
  gave a truthy suggestion.
\<close>

definition didYouMean :: "string list \<Rightarrow> string \<Rightarrow> string" where
  "didYouMean teams v =
     (case closest teams v of
        None \<Rightarrow> []
      | Some didYouMeanValue \<Rightarrow>
          if didYouMeanValue \<noteq> []
          then [CHR 0x0A, CHR 0x0A] @ ''Did you mean '' @ bold didYouMeanValue @ ''?''
          else [])"

definition team_not_found :: "string list \<Rightarrow> string \<Rightarrow> string" where
  "team_not_found teams v =
     ''A team named '' @ [CHR 0x22] @ v @ [CHR 0x22]
       @ '' was not found in your credentials file. '' @ didYouMean teams v
       @ [CHR 0x0A] @ ''Are you logged in? Try running '' @ [CHR 0x22]
       @ bold ''pspace login'' @ [CHR 0x22] @ '' first.''"

text \<open>
  The transform on \<open>team\<close>: the value is kept when the credential store yields a
  truthy secret for it, otherwise the \<open>ConfigError\<close> is thrown.
\<close>

definition team_transform :: "creds \<Rightarrow> string \<Rightarrow> error + string option" where
  "team_transform store v =
     (if truthy (credentials_get store v) then Inr (Some v)
      else Inl (ConfigError (team_not_found (credentials_list store) v)))"

text \<open>\<open>version: z.literal(1).default(1)\<close>, on the property as the object holds it.\<close>

definition schema_version :: "jsval option \<Rightarrow> error + int" where
  "schema_version p =
     (case p of
        None \<Rightarrow> Inr 1
      | Some JUndefined \<Rightarrow> Inr 1
      | Some (JNum n) \<Rightarrow> if n = 1 then Inr 1 else Inl ZodError
      | Some _ \<Rightarrow> Inl ZodError)"

text \<open>\<open>team: z.string().transform(...).nullable().default(null)\<close>.\<close>

definition schema_team :: "creds \<Rightarrow> jsval option \<Rightarrow> error + string option" where
  "schema_team store p =
     (case p of
        None \<Rightarrow> Inr None
      | Some JUndefined \<Rightarrow> Inr None
      | Some JNull \<Rightarrow> Inr None
      | Some (JStr s) \<Rightarrow> team_transform store s
      | Some _ \<Rightarrow> Inl ZodError)"

text \<open>
  \<open>schema.parseAsync\<close>. A value that is not an object is a validation error.
  Unknown keys are stripped. The exception thrown inside the transform rejects the
  whole parse whatever the other field's issues are; otherwise the issues collected
  make a \<open>ZodError\<close>.
\<close>

definition schema_parseAsync :: "creds \<Rightarrow> jsval \<Rightarrow> error + config" where
  "schema_parseAsync store v =
     (case v of
        JObj kvs \<Rightarrow>
          (case schema_team store (map_of kvs ''team'') of
             Inl (ConfigError m) \<Rightarrow> Inl (ConfigError m)
           | Inl e \<Rightarrow>
               (case schema_version (map_of kvs ''version'') of
                  Inl e' \<Rightarrow> Inl e'
                | Inr n \<Rightarrow> Inl e)
           | Inr t \<Rightarrow>
               (case schema_version (map_of kvs ''version'') of
                  Inl e' \<Rightarrow> Inl e'
                | Inr n \<Rightarrow> Inr \<lparr>version = n, team = t\<rparr>))
      | _ \<Rightarrow> Inl ZodError)"

text \<open>The validated document as the plain object that is serialised and addressed by path.\<close>

definition to_js :: "config \<Rightarrow> jsval" where
  "to_js c =
     JObj [(''version'', JNum (version c)),
           (''team'', case team c of None \<Rightarrow> JNull | Some t \<Rightarrow> JStr t)]"

section \<open>The file system\<close>

text \<open>
  The module touches one directory and one file in it. The file's text is kept as
  what the YAML parser makes of it: \<open>Corrupt\<close> when \<open>parse\<close> (or reading the
  text) throws, \<open>Yaml v\<close> when it gives the value \<open>v\<close>; \<open>stringify\<close> writes a
  text that parses back to the object it was given. Creating the directory and writing
  the file are taken to succeed; the file's permission mode and the log are not part
  of the state.
\<close>

datatype file_content = Corrupt | Yaml jsval

record fs =
  dir_exists :: bool
  contents :: "file_content option"

section \<open>Reading and writing the config file (\<open>lib/config.ts\<close>)\<close>

text \<open>
  \<open>write\<close>: the directory is created when it is missing, then the document is
  validated, and only a document that validates is serialised into the file.
\<close>

definition write_config :: "creds \<Rightarrow> jsval \<Rightarrow> fs \<Rightarrow> (error + unit) \<times> fs" where
  "write_config store cfg s =
     (let s1 = (if dir_exists s then s else s\<lparr>dir_exists := True\<rparr>) in
      case schema_parseAsync store cfg of
        Inl e \<Rightarrow> (Inl e, s1)
      | Inr c \<Rightarrow> (Inr (), s1\<lparr>contents := Some (Yaml (to_js c))\<rparr>))"

text \<open>
  \<open>read\<close>: without a file the defaults are returned. Otherwise the body of the
  second \<open>try\<close> parses and validates the file; whatever it throws lands in the
  same \<open>catch\<close>, which builds the defaults, writes them and returns them.
\<close>

definition read_config :: "creds \<Rightarrow> fs \<Rightarrow> (error + config) \<times> fs" where
  "read_config store s =
     (case contents s of
        None \<Rightarrow> (schema_parseAsync store (JObj [(''team'', JNull)]), s)
      | Some c \<Rightarrow>
          (case (case c of Corrupt \<Rightarrow> Inl YAMLError | Yaml v \<Rightarrow> schema_parseAsync store v) of
             Inr cfg \<Rightarrow> (Inr cfg, s)
           | Inl _ \<Rightarrow>
               (case schema_parseAsync store (JObj [(''team'', JNull)]) of
                  Inl e \<Rightarrow> (Inl e, s)
                | Inr nextConfig \<Rightarrow>
                    (case write_config store (to_js nextConfig) s of
                       (Inl e, s') \<Rightarrow> (Inl e, s')
                     | (Inr _, s') \<Rightarrow> (Inr nextConfig, s')))))"

subsection \<open>Addressing by path (object-path-immutable on plain objects)\<close>

text \<open>
  A path is split at its dots into keys. \<open>get\<close> reads \<open>undefined\<close> where a key is
  missing; \<open>set\<close> replaces a property where it stands or appends it, creating the
  objects on the way; \<open>del\<close> drops the property at the end of the path. Indexing
  into arrays is left out: the documents here are objects.
\<close>

fun split_dots :: "string \<Rightarrow> string list" where
  "split_dots [] = [[]]"
| "split_dots (c # cs) =
     (if c = CHR ''.'' then [] # split_dots cs
      else (case split_dots cs of w # ws \<Rightarrow> (c # w) # ws | [] \<Rightarrow> [[c]]))"

fun put :: "string \<Rightarrow> jsval \<Rightarrow> (string \<times> jsval) list \<Rightarrow> (string \<times> jsval) list" where
  "put k v [] = [(k, v)]"
| "put k v ((k', w) # kvs) = (if k' = k then (k, v) # kvs else (k', w) # put k v kvs)"

fun get_keys :: "jsval \<Rightarrow> string list \<Rightarrow> jsval" where
  "get_keys v [] = v"
| "get_keys (JObj kvs) (k # ks) =
     (case map_of kvs k of None \<Rightarrow> JUndefined | Some w \<Rightarrow> get_keys w ks)"
| "get_keys v (k # ks) = JUndefined"

fun set_keys :: "jsval \<Rightarrow> string list \<Rightarrow> jsval \<Rightarrow> jsval" where
  "set_keys v [] x = x"
| "set_keys (JObj kvs) (k # ks) x =
     JObj (put k (set_keys (case map_of kvs k of None \<Rightarrow> JObj [] | Some w \<Rightarrow> w) ks x) kvs)"
| "set_keys v (k # ks) x = JObj [(k, set_keys (JObj []) ks x)]"

fun del_keys :: "jsval \<Rightarrow> string list \<Rightarrow> jsval" where
  "del_keys v [] = v"
| "del_keys (JObj kvs) [k] = JObj (filter (\<lambda>(k', w). k' \<noteq> k) kvs)"
| "del_keys (JObj kvs) (k # ks) =
     (case map_of kvs k of None \<Rightarrow> JObj kvs | Some w \<Rightarrow> JObj (put k (del_keys w ks) kvs))"
| "del_keys v (k # ks) = v"

definition obj_get :: "jsval \<Rightarrow> string \<Rightarrow> jsval" where
  "obj_get v path = (if path = [] then v else get_keys v (split_dots path))"

definition obj_set :: "jsval \<Rightarrow> string \<Rightarrow> jsval \<Rightarrow> jsval" where
  "obj_set v path x = (if path = [] then v else set_keys v (split_dots path) x)"

definition obj_del :: "jsval \<Rightarrow> string \<Rightarrow> jsval" where
  "obj_del v path = (if path = [] then v else del_keys v (split_dots path))"

subsection \<open>\<open>get\<close>, \<open>set\<close>, \<open>remove\<close>, \<open>clear\<close>\<close>

text \<open>
  Each of the first three reads the file first; an error of \<open>read\<close> ends the
  call. Several of the module's names (\<open>write\<close>, \<open>set\<close>, \<open>remove\<close>) are taken
  in Isabelle, so all its operations carry the suffix \<open>_config\<close>.
\<close>

definition get_config :: "creds \<Rightarrow> string \<Rightarrow> fs \<Rightarrow> (error + jsval) \<times> fs" where
  "get_config store path s =
     (case read_config store s of
        (Inl e, s') \<Rightarrow> (Inl e, s')
      | (Inr config, s') \<Rightarrow> (Inr (obj_get (to_js config) path), s'))"

definition set_config :: "creds \<Rightarrow> string \<Rightarrow> jsval \<Rightarrow> fs \<Rightarrow> (error + unit) \<times> fs" where
  "set_config store path v s =
     (case read_config store s of
        (Inl e, s') \<Rightarrow> (Inl e, s')
      | (Inr config, s') \<Rightarrow> write_config store (obj_set (to_js config) path v) s')"

definition remove_config :: "creds \<Rightarrow> string \<Rightarrow> fs \<Rightarrow> (error + unit) \<times> fs" where
  "remove_config store path s =
     (case read_config store s of
        (Inl e, s') \<Rightarrow> (Inl e, s')
      | (Inr config, s') \<Rightarrow> write_config store (obj_del (to_js config) path) s')"

definition clear_config :: "creds \<Rightarrow> fs \<Rightarrow> (error + unit) \<times> fs" where
  "clear_config store s =
     (case schema_parseAsync store (JObj [(''team'', JNull)]) of
        Inl e \<Rightarrow> (Inl e, s)
      | Inr c \<Rightarrow> write_config store (to_js c) s)"

section \<open>The enumerated paths (\<open>getKeys\<close>, \<open>paths\<close>)\<close>

text \<open>
  The zod schemas that \<open>getKeys\<close> walks. \<open>getKeys\<close> reads three things of a field's
  schema: \<open>isOptional()\<close>, \<open>_def.innerType\<close> and whether it has a \<open>shape\<close>.
  \<open>isOptional()\<close> is \<open>safeParse(undefined).success\<close>, a synchronous parse: it
  accepts, rejects, or throws when the parse reaches an asynchronous effect.
  \<^item> \<open>ZLeaf p\<close> is a schema that is neither an object nor a wrapper of one schema
    (\<open>z.string()\<close>, \<open>z.literal(1)\<close>, \<open>z.any()\<close>, \<open>z.undefined()\<close>, an array, a
    union); it has no shape and no inner type, and \<open>p\<close> is what its parse of
    \<open>undefined\<close> does (\<open>z.string()\<close> rejects, \<open>z.any()\<close> accepts).
  \<^item> \<open>ZObject shape\<close> is \<open>z.object(shape)\<close>, the fields in the order in which
    \<open>Object.keys\<close> lists them; it rejects \<open>undefined\<close>.
  \<^item> \<open>ZOptional t\<close> is \<open>t.optional()\<close>: it accepts \<open>undefined\<close> without asking
    \<open>t\<close>, and \<open>t\<close> is its inner type.
  \<^item> \<open>ZNullable t\<close> is \<open>t.nullable()\<close>: \<open>undefined\<close> is not \<open>null\<close> and goes to
    \<open>t\<close>, which is its inner type.
  \<^item> \<open>ZDefault p t\<close> is \<open>t.default(v)\<close> or \<open>t.catch(v)\<close>: \<open>t\<close> is its inner
    type, and \<open>p\<close> is what its parse of \<open>undefined\<close> does, which depends on \<open>v\<close>
    and on \<open>t\<close>.
  \<^item> \<open>ZEffects p t\<close> is \<open>t\<close> under a refinement, a transform, a preprocessor or a
    brand: the wrapped schema is kept in \<open>_def.schema\<close> or \<open>_def.type\<close>, so there is
    no inner type and no shape; \<open>p\<close> is what its parse of \<open>undefined\<close> does, which
    depends on the effect and on \<open>t\<close>.
\<close>

datatype probe = Accepts | Rejects | Throws

datatype ztype =
    ZLeaf probe
  | ZObject "(string \<times> ztype) list"
  | ZOptional ztype
  | ZNullable ztype
  | ZDefault probe ztype
  | ZEffects probe ztype

fun isOptional :: "ztype \<Rightarrow> probe" where
  "isOptional (ZLeaf p) = p"
| "isOptional (ZObject shape) = Rejects"
| "isOptional (ZOptional t) = Accepts"
| "isOptional (ZNullable t) = isOptional t"
| "isOptional (ZDefault p t) = p"
| "isOptional (ZEffects p t) = p"

text \<open>\<open>_def.innerType\<close>; \<open>None\<close> is \<open>undefined\<close>.\<close>

fun innerType :: "ztype \<Rightarrow> ztype option" where
  "innerType (ZOptional t) = Some t"
| "innerType (ZNullable t) = Some t"
| "innerType (ZDefault p t) = Some t"
| "innerType (ZLeaf p) = None"
| "innerType (ZObject shape) = None"
| "innerType (ZEffects p t) = None"

text \<open>
  \<open>nestedObj\<close>: the inner type of a field that accepts \<open>undefined\<close>, the field's
  schema itself otherwise; the error is the one \<open>isOptional()\<close> throws.
\<close>

definition nestedObj :: "ztype \<Rightarrow> error + ztype option" where
  "nestedObj t =
     (case isOptional t of
        Throws \<Rightarrow> Inl SyncParseError
      | Accepts \<Rightarrow> Inr (innerType t)
      | Rejects \<Rightarrow> Inr (Some t))"

text \<open>
  \<open>.map(...).flat()\<close>: the lists that the callback returns, one after the other; the
  first call of the callback that throws ends the whole call.
\<close>

fun flat :: "(error + 'a list) list \<Rightarrow> error + 'a list" where
  "flat [] = Inr []"
| "flat (Inl e # rs) = Inl e"
| "flat (Inr xs # rs) = (case flat rs of Inl e \<Rightarrow> Inl e | Inr ys \<Rightarrow> Inr (xs @ ys))"

text \<open>
  \<open>getKeys\<close>. \<open>"shape" in nestedObj\<close> is a \<open>TypeError\<close> when \<open>nestedObj\<close> is
  \<open>undefined\<close>; it holds of an object schema only.
\<close>

function getKeys :: "(string \<times> ztype) list \<Rightarrow> error + string list" where
  "getKeys shape =
     flat (map (\<lambda>(key, t).
       (case nestedObj t of
          Inl e \<Rightarrow> Inl e
        | Inr None \<Rightarrow> Inl TypeError
        | Inr (Some (ZObject sub)) \<Rightarrow>
            (case getKeys sub of
               Inl e \<Rightarrow> Inl e
             | Inr subKeys \<Rightarrow> Inr (map (\<lambda>subKey. key @ ''.'' @ subKey) subKeys))
        | Inr (Some _) \<Rightarrow> Inr [key])) shape)"
  by pat_completeness auto
termination
proof (relation "measure (size_list (size_prod (\<lambda>_. 0) size))")
  show "wf (measure (size_list (size_prod (\<lambda>_. 0) size)))" by simp
next
  fix shape :: "(string \<times> ztype) list" and x key t b n sub
  assume mem: "x \<in> set shape" and x: "(key, t) = x"
    and nested: "nestedObj t = Inr b" "b = Some n" "n = ZObject sub"
  have "size (ZObject sub) \<le> size t"
    using nested by (cases t) (auto simp: nestedObj_def split: probe.splits)
  then have "size_list (size_prod (\<lambda>_. 0) size) sub < size t" by simp
  also have "\<dots> \<le> size_prod (\<lambda>_. 0) size x" using x by auto
  also have "\<dots> \<le> size_list (size_prod (\<lambda>_. 0) size) shape"
    using mem by (simp add: size_list_estimation')
  finally show "(sub, shape) \<in> measure (size_list (size_prod (\<lambda>_. 0) size))" by simp
qed

text \<open>
  The schema of the config document: \<open>version\<close> is \<open>z.literal(1).default(1)\<close>, and
  \<open>team\<close> is a string under the transform, \<open>.nullable()\<close> and \<open>.default(null)\<close>;
  both defaults are values that the wrapped schema accepts, and the transform is not
  reached on \<open>undefined\<close>, which the string rejects. \<open>paths\<close> is evaluated when
  the module is loaded; \<open>getKeys\<close> returns on this schema (\<open>getKeys_schema\<close> below),
  so the branch for a call that throws is never taken.
\<close>

definition schema :: "(string \<times> ztype) list" where
  "schema =
     [(''version'', ZDefault Accepts (ZLeaf Rejects)),
      (''team'', ZDefault Accepts (ZNullable (ZEffects Rejects (ZLeaf Rejects))))]"

definition paths :: "string list" where
  "paths =
     (case getKeys schema of
        Inl e \<Rightarrow> []
      | Inr keys \<Rightarrow> filter (\<lambda>key. key \<noteq> ''version'') keys)"

section \<open>Resolving the API key (\<open>act\<close>)\<close>

text \<open>
  Modelled from the spec: \<open>lib/env.ts\<close> is not among the sources. The process
  environment maps a variable's name to its value; \<open>env.get\<close> reads it and
  \<open>env.set\<close> stores a value under a name.
\<close>

type_synonym env = "string \<rightharpoonup> string"

text \<open>The options of an invocation that \<open>act\<close> looks at.\<close>

record opt =
  debug :: "string option"
  apiKey :: "string option"
  apiUrl :: "string option"

text \<open>The three writes that copy the flags into the environment.\<close>

definition apply_flags :: "opt \<Rightarrow> env \<Rightarrow> env" where
  "apply_flags opt e =
     (let e1 = (case debug opt of None \<Rightarrow> e | Some d \<Rightarrow> e(''DEBUG'' \<mapsto> d));
          e2 = (case apiKey opt of
                  None \<Rightarrow> e1
                | Some k \<Rightarrow> if k \<noteq> [] then e1(''PAPERSPACE_API_KEY'' \<mapsto> k) else e1)
      in (case apiUrl opt of
            None \<Rightarrow> e2
          | Some u \<Rightarrow> if u \<noteq> [] then e2(''PAPERSPACE_API_URL'' \<mapsto> u) else e2))"

text \<open>
  What \<open>act\<close> does before it runs the wrapped action: the flags go into the
  environment; if the key is still not set there, the config's team is read and, when
  there is one, its stored secret is put into the environment. Handing
  \<open>env.set\<close> something that is not a string is a \<open>TypeError\<close>.
\<close>

definition act :: "creds \<Rightarrow> opt \<Rightarrow> env \<Rightarrow> fs \<Rightarrow> (error + unit) \<times> env \<times> fs" where
  "act store opt e s =
     (let e3 = apply_flags opt e in
      if \<not> truthy (e3 ''PAPERSPACE_API_KEY'') then
        (case get_config store ''team'' s of
           (Inl err, s') \<Rightarrow> (Inl err, e3, s')
         | (Inr team', s') \<Rightarrow>
             if js_truthy team' then
               (case team' of
                  JStr t \<Rightarrow>
                    (case credentials_get store t of
                       Some k \<Rightarrow> (Inr (), e3(''PAPERSPACE_API_KEY'' \<mapsto> k), s')
                     | None \<Rightarrow> (Inl TypeError, e3, s'))
                | _ \<Rightarrow> (Inl TypeError, e3, s'))
             else (Inr (), e3, s'))
      else (Inr (), e3, s))"

text \<open>The credential an invocation works with: the key in the environment, if it is set.\<close>

definition credential :: "env \<Rightarrow> string option" where
  "credential e = (if truthy (e ''PAPERSPACE_API_KEY'') then e ''PAPERSPACE_API_KEY'' else None)"

section \<open>Notions used in the statements\<close>

subsection \<open>Valid documents\<close>

text \<open>The default document, and the invariant of a validated document.\<close>

definition defaults :: config where
  "defaults = \<lparr>version = 1, team = None\<rparr>"

definition valid_config :: "creds \<Rightarrow> config \<Rightarrow> bool" where
  "valid_config store c =
     (version c = 1 \<and> (case team c of None \<Rightarrow> True | Some t \<Rightarrow> truthy (credentials_get store t)))"

text \<open>What an operation may do to the file: leave its contents, or store a valid document.\<close>

definition unchanged_or_valid :: "creds \<Rightarrow> fs \<Rightarrow> fs \<Rightarrow> bool" where
  "unchanged_or_valid store s s' =
     (contents s' = contents s
      \<or> (\<exists>c. valid_config store c \<and> contents s' = Some (Yaml (to_js c))))"

subsection \<open>The precedence of the credential sources\<close>

text \<open>
  The precedence rule in the spec's words: the sources are taken in order, and the
  first that yields a non-empty value wins. The third source is the stored secret of
  the team that \<open>get("team")\<close> reports, if it reports one.
\<close>

definition spec_resolve :: "string option \<Rightarrow> string option \<Rightarrow> string option \<Rightarrow> string option" where
  "spec_resolve override environment stored =
     (if truthy override then override
      else if truthy environment then environment
      else if truthy stored then stored
      else None)"

definition team_credential :: "creds \<Rightarrow> fs \<Rightarrow> string option" where
  "team_credential store s =
     (case fst (get_config store ''team'' s) of
        Inr (JStr t) \<Rightarrow> if t \<noteq> [] then credentials_get store t else None
      | _ \<Rightarrow> None)"

subsection \<open>The paths of a schema\<close>








section \<open>Properties of the schema\<close>

text \<open>The recursive equation of \<open>getKeys\<close> is used one step at a time.\<close>

declare getKeys.simps [simp del]

lemma getKeys_unfold:
  "getKeys shape =
     flat (map (\<lambda>kt.
       (case nestedObj (snd kt) of
          Inl e \<Rightarrow> Inl e
        | Inr None \<Rightarrow> Inl TypeError
        | Inr (Some (ZObject sub)) \<Rightarrow>
            (case getKeys sub of
               Inl e \<Rightarrow> Inl e
             | Inr subKeys \<Rightarrow> Inr (map (\<lambda>subKey. fst kt @ ''.'' @ subKey) subKeys))
        | Inr (Some _) \<Rightarrow> Inr [fst kt])) shape)"
  by (subst getKeys.simps) (simp add: case_prod_unfold)

lemma flat_Cons:
  "flat (r # rs) =
     (case r of
        Inl e \<Rightarrow> Inl e
      | Inr xs \<Rightarrow> (case flat rs of Inl e \<Rightarrow> Inl e | Inr ys \<Rightarrow> Inr (xs @ ys)))"
  by (cases r) simp_all

lemma getKeys_Nil: "getKeys [] = Inr []"
  by (simp add: getKeys_unfold [of "[]"])

lemma getKeys_Cons:
  "getKeys (kt # shape) =
     (case (case nestedObj (snd kt) of
              Inl e \<Rightarrow> Inl e
            | Inr None \<Rightarrow> Inl TypeError
            | Inr (Some (ZObject sub)) \<Rightarrow>
                (case getKeys sub of
                   Inl e \<Rightarrow> Inl e
                 | Inr subKeys \<Rightarrow> Inr (map (\<lambda>subKey. fst kt @ ''.'' @ subKey) subKeys))
            | Inr (Some _) \<Rightarrow> Inr [fst kt]) of
        Inl e \<Rightarrow> Inl e
      | Inr keys \<Rightarrow> (case getKeys shape of Inl e \<Rightarrow> Inl e | Inr rest \<Rightarrow> Inr (keys @ rest)))"
proof -
  let ?f = "\<lambda>kt. case nestedObj (snd kt) of
              Inl e \<Rightarrow> Inl e
            | Inr None \<Rightarrow> Inl TypeError
            | Inr (Some (ZObject sub)) \<Rightarrow>
                (case getKeys sub of
                   Inl e \<Rightarrow> Inl e
                 | Inr subKeys \<Rightarrow> Inr (map (\<lambda>subKey. fst kt @ ''.'' @ subKey) subKeys))
            | Inr (Some _) \<Rightarrow> Inr [fst kt]"
  have whole: "getKeys (kt # shape) = flat (?f kt # map ?f shape)"
    by (subst getKeys_unfold) simp
  have rest: "flat (map ?f shape) = getKeys shape"
    by (rule getKeys_unfold [symmetric])
  show ?thesis by (simp only: whole flat_Cons rest)
qed

lemma getKeys_schema: "getKeys schema = Inr [''version'', ''team'']"
  by (simp add: schema_def getKeys_Cons getKeys_Nil nestedObj_def)

lemma paths_team: "paths = [''team'']"
  by (simp add: paths_def getKeys_schema)

lemma parse_defaults: "schema_parseAsync store (JObj [(''team'', JNull)]) = Inr defaults"
  by (simp add: schema_parseAsync_def schema_team_def schema_version_def defaults_def)

lemma schema_version_one: "schema_version p = Inr n \<Longrightarrow> n = 1"
  by (auto simp: schema_version_def split: option.splits jsval.splits if_splits)

lemma schema_team_valid:
  "schema_team store p = Inr (Some t) \<Longrightarrow> truthy (credentials_get store t)"
  by (auto simp: schema_team_def team_transform_def split: option.splits jsval.splits if_splits)

lemma parse_valid: "schema_parseAsync store v = Inr c \<Longrightarrow> valid_config store c"
  by (cases "team c")
    (auto simp: schema_parseAsync_def valid_config_def
      split: jsval.splits sum.splits error.splits
      dest: schema_version_one schema_team_valid)

lemma parse_to_js: "valid_config store c \<Longrightarrow> schema_parseAsync store (to_js c) = Inr c"
  by (cases "team c")
    (auto simp: schema_parseAsync_def valid_config_def to_js_def schema_team_def
      schema_version_def team_transform_def)

lemma valid_defaults: "valid_config store defaults"
  by (simp add: valid_config_def defaults_def)

lemma write_defaults:
  "write_config store (to_js defaults) s =
     (Inr (), s\<lparr>dir_exists := True, contents := Some (Yaml (to_js defaults))\<rparr>)"
  by (simp add: write_config_def parse_to_js [OF valid_defaults])

section \<open>Properties of \<open>read\<close> and \<open>write\<close>\<close>

lemma read_absent: "contents s = None \<Longrightarrow> read_config store s = (Inr defaults, s)"
  by (simp add: read_config_def parse_defaults)

lemma read_recovers:
  assumes "contents s = Some c"
    and "(case c of Corrupt \<Rightarrow> Inl YAMLError | Yaml v \<Rightarrow> schema_parseAsync store v) = Inl e"
  shows "read_config store s =
     (Inr defaults, s\<lparr>dir_exists := True, contents := Some (Yaml (to_js defaults))\<rparr>)"
  using assms by (simp add: read_config_def parse_defaults write_defaults)

lemma read_valid:
  "contents s = Some (Yaml v) \<Longrightarrow> schema_parseAsync store v = Inr c \<Longrightarrow>
     read_config store s = (Inr c, s)"
  by (simp add: read_config_def)

lemma write_invalid:
  "schema_parseAsync store doc = Inl e \<Longrightarrow> write_config store doc s = (Inl e, s\<lparr>dir_exists := True\<rparr>)"
  by (cases "dir_exists s") (simp_all add: write_config_def)

lemma write_valid:
  "schema_parseAsync store doc = Inr c \<Longrightarrow>
     write_config store doc s = (Inr (), s\<lparr>dir_exists := True, contents := Some (Yaml (to_js c))\<rparr>)"
  by (cases "dir_exists s") (simp_all add: write_config_def)

lemma unknown_team_rejected:
  "\<not> truthy (credentials_get store t) \<Longrightarrow>
     schema_parseAsync store (JObj [(''version'', JNum 1), (''team'', JStr t)]) =
       Inl (ConfigError (team_not_found (credentials_list store) t))"
  by (simp add: schema_parseAsync_def schema_team_def team_transform_def)

text \<open>
  Claim C1, as the code has it. A config file that parses as YAML but fails schema
  validation (an unknown team, a wrong version, a document that is not an object) does
  not make \<open>read\<close> fail: the error is caught with the YAML parser's, \<open>read\<close>
  returns the default document and the file is overwritten with it.
\<close>

theorem read_invalid_file_gives_defaults:
  assumes "contents s = Some (Yaml v)" and "schema_parseAsync store v = Inl e"
  shows "read_config store s =
     (Inr defaults, s\<lparr>dir_exists := True, contents := Some (Yaml (to_js defaults))\<rparr>)"
  using assms by (simp add: read_recovers [where c = "Yaml v" and e = e])

theorem read_invalid_file_gives_defaults_witness:
  "read_config [(''acme'', ''key-1'')]
       \<lparr>dir_exists = True,
        contents = Some (Yaml (JObj [(''version'', JNum 2), (''team'', JStr ''acme'')]))\<rparr> =
     (Inr \<lparr>version = 1, team = None\<rparr>,
      \<lparr>dir_exists = True,
       contents = Some (Yaml (JObj [(''version'', JNum 1), (''team'', JNull)]))\<rparr>)"
  using read_invalid_file_gives_defaults
    [of "\<lparr>dir_exists = True,
          contents = Some (Yaml (JObj [(''version'', JNum 2), (''team'', JStr ''acme'')]))\<rparr>"
        "JObj [(''version'', JNum 2), (''team'', JStr ''acme'')]" "[(''acme'', ''key-1'')]"
        ZodError]
  by (simp add: schema_parseAsync_def schema_team_def schema_version_def team_transform_def
      truthy_def credentials_get_def defaults_def to_js_def)

text \<open>
  Claim C1 as the spec states it fails: the file below names a team that the credential
  store does not know, so validating it throws the \<open>ConfigError\<close>, and yet \<open>read\<close>
  returns a document instead of that error, and the file no longer names the team.
\<close>

theorem read_swallows_config_error:
  "schema_parseAsync [(''acme'', ''key-1'')] (JObj [(''team'', JStr ''ghost'')]) =
       Inl (ConfigError (team_not_found [''acme''] ''ghost''))
   \<and> read_config [(''acme'', ''key-1'')]
       \<lparr>dir_exists = True, contents = Some (Yaml (JObj [(''team'', JStr ''ghost'')]))\<rparr> =
     (Inr \<lparr>version = 1, team = None\<rparr>,
      \<lparr>dir_exists = True,
       contents = Some (Yaml (JObj [(''version'', JNum 1), (''team'', JNull)]))\<rparr>)"
  by (simp add: read_config_def write_config_def schema_parseAsync_def schema_team_def
      schema_version_def team_transform_def truthy_def credentials_get_def
      credentials_list_def to_js_def)

text \<open>
  Claim C2. Without a config file \<open>read\<close> returns the default document
  (\<open>version = 1\<close>, \<open>team = null\<close>) and leaves the file system as it is: no file is
  created. With a file that cannot be parsed as YAML it returns the default document
  and the file holds the default document afterwards. The result is a document in both
  cases, never an error.
\<close>

theorem read_absent_or_corrupt:
  "(contents s = None \<longrightarrow> read_config store s = (Inr \<lparr>version = 1, team = None\<rparr>, s))
   \<and> (contents s = Some Corrupt \<longrightarrow>
        read_config store s =
          (Inr \<lparr>version = 1, team = None\<rparr>,
           s\<lparr>dir_exists := True,
             contents := Some (Yaml (JObj [(''version'', JNum 1), (''team'', JNull)]))\<rparr>))"
proof (intro conjI impI)
  assume "contents s = None"
  then show "read_config store s = (Inr \<lparr>version = 1, team = None\<rparr>, s)"
    by (simp add: read_absent defaults_def)
next
  assume "contents s = Some Corrupt"
  then have "read_config store s =
      (Inr defaults, s\<lparr>dir_exists := True, contents := Some (Yaml (to_js defaults))\<rparr>)"
    by (simp add: read_recovers [where c = Corrupt and e = YAMLError])
  then show "read_config store s =
      (Inr \<lparr>version = 1, team = None\<rparr>,
       s\<lparr>dir_exists := True,
         contents := Some (Yaml (JObj [(''version'', JNum 1), (''team'', JNull)]))\<rparr>)"
    by (simp add: defaults_def to_js_def)
qed

theorem read_absent_or_corrupt_witness:
  "read_config [] \<lparr>dir_exists = False, contents = None\<rparr> =
     (Inr \<lparr>version = 1, team = None\<rparr>, \<lparr>dir_exists = False, contents = None\<rparr>)
   \<and> read_config [] \<lparr>dir_exists = True, contents = Some Corrupt\<rparr> =
     (Inr \<lparr>version = 1, team = None\<rparr>,
      \<lparr>dir_exists = True,
       contents = Some (Yaml (JObj [(''version'', JNum 1), (''team'', JNull)]))\<rparr>)"
  using read_absent_or_corrupt [of "\<lparr>dir_exists = False, contents = None\<rparr>" "[]"]
    read_absent_or_corrupt [of "\<lparr>dir_exists = True, contents = Some Corrupt\<rparr>" "[]"]
  by simp

text \<open>
  Claim C8. A document that fails schema validation makes \<open>write\<close> throw the
  validation error before the file is written: the file's contents stay what they
  were. The directory is created first, so it exists afterwards even when it was
  missing. A non-null team without a truthy stored secret is such a document.
\<close>

theorem write_invalid_keeps_file:
  assumes "schema_parseAsync store doc = Inl e"
  shows "fst (write_config store doc s) = Inl e
     \<and> contents (snd (write_config store doc s)) = contents s
     \<and> dir_exists (snd (write_config store doc s))"
  using assms by (simp add: write_invalid)

theorem write_invalid_keeps_file_witness:
  "fst (write_config [(''acme'', ''key-1'')] (JObj [(''version'', JNum 1), (''team'', JStr ''ghost'')])
         \<lparr>dir_exists = False, contents = None\<rparr>) =
       Inl (ConfigError (team_not_found [''acme''] ''ghost''))
   \<and> contents (snd (write_config [(''acme'', ''key-1'')]
         (JObj [(''version'', JNum 1), (''team'', JStr ''ghost'')])
         \<lparr>dir_exists = False, contents = None\<rparr>)) = None
   \<and> dir_exists (snd (write_config [(''acme'', ''key-1'')]
         (JObj [(''version'', JNum 1), (''team'', JStr ''ghost'')])
         \<lparr>dir_exists = False, contents = None\<rparr>))"
  using write_invalid_keeps_file
    [of "[(''acme'', ''key-1'')]" "JObj [(''version'', JNum 1), (''team'', JStr ''ghost'')]"
        "ConfigError (team_not_found [''acme''] ''ghost'')"
        "\<lparr>dir_exists = False, contents = None\<rparr>"]
  by (simp add: schema_parseAsync_def schema_team_def team_transform_def truthy_def
      credentials_get_def credentials_list_def)

section \<open>Properties of \<open>get\<close>, \<open>set\<close> and \<open>remove\<close>\<close>

lemma split_dots_team: "split_dots ''team'' = [''team'']"
  by simp

lemma obj_get_team:
  "obj_get (to_js c) ''team'' = (case team c of None \<Rightarrow> JNull | Some t \<Rightarrow> JStr t)"
  by (simp add: obj_get_def to_js_def)

lemma obj_set_team:
  "obj_set (to_js c) ''team'' v = JObj [(''version'', JNum (version c)), (''team'', v)]"
  by (simp add: obj_set_def to_js_def)

lemma obj_del_team: "obj_del (to_js c) ''team'' = JObj [(''version'', JNum (version c))]"
  by (simp add: obj_del_def to_js_def)

lemma read_cases:
  obtains (kept) c where "read_config store s = (Inr c, s)" and "valid_config store c"
  | (recovered) "read_config store s =
      (Inr defaults, s\<lparr>dir_exists := True, contents := Some (Yaml (to_js defaults))\<rparr>)"
    and "contents s \<noteq> None"
proof (cases "contents s")
  case None
  then show ?thesis using kept [of defaults] by (simp add: read_absent valid_defaults)
next
  case (Some f)
  show ?thesis
  proof (cases "case f of Corrupt \<Rightarrow> Inl YAMLError | Yaml v \<Rightarrow> schema_parseAsync store v")
    case (Inl e)
    with Some show ?thesis using recovered by (simp add: read_recovers)
  next
    case (Inr c)
    then obtain v where f: "f = Yaml v" and v: "schema_parseAsync store v = Inr c"
      by (cases f) auto
    with Some show ?thesis using kept [of c] by (simp add: read_valid parse_valid)
  qed
qed

lemma read_total: "\<exists>c s'. read_config store s = (Inr c, s') \<and> valid_config store c"
  by (rule read_cases [of store s]) (auto simp: valid_defaults)

lemma read_contents:
  "contents (snd (read_config store s)) = contents s
   \<or> contents (snd (read_config store s)) = Some (Yaml (to_js defaults))"
  by (rule read_cases [of store s]) auto

lemma write_contents:
  "(\<exists>e. fst (write_config store doc s) = Inl e \<and> contents (snd (write_config store doc s)) = contents s)
   \<or> (\<exists>c. fst (write_config store doc s) = Inr () \<and> valid_config store c
          \<and> contents (snd (write_config store doc s)) = Some (Yaml (to_js c)))"
proof (cases "schema_parseAsync store doc")
  case (Inl e)
  then show ?thesis by (simp add: write_invalid)
next
  case (Inr c)
  then have "valid_config store c" by (rule parse_valid)
  with Inr show ?thesis by (auto simp: write_valid intro!: exI [of _ c])
qed

lemma uov_read: "unchanged_or_valid store s (snd (read_config store s))"
  using read_contents [of store s] valid_defaults [of store]
  by (auto simp: unchanged_or_valid_def)

lemma uov_write: "unchanged_or_valid store s (snd (write_config store doc s))"
  using write_contents [of store doc s] by (auto simp: unchanged_or_valid_def)

lemma uov_trans:
  "unchanged_or_valid store s s1 \<Longrightarrow> unchanged_or_valid store s1 s2 \<Longrightarrow> unchanged_or_valid store s s2"
  by (auto simp: unchanged_or_valid_def)

lemma uov_get: "unchanged_or_valid store s (snd (get_config store p s))"
proof -
  obtain c s' where r: "read_config store s = (Inr c, s')" using read_total by blast
  then have "snd (get_config store p s) = snd (read_config store s)"
    by (simp add: get_config_def)
  then show ?thesis by (simp add: uov_read)
qed

lemma uov_set: "unchanged_or_valid store s (snd (set_config store p v s))"
proof -
  obtain c s' where r: "read_config store s = (Inr c, s')" using read_total by blast
  then have "snd (set_config store p v s) = snd (write_config store (obj_set (to_js c) p v) s')"
    by (simp add: set_config_def)
  moreover have "unchanged_or_valid store s s'" using uov_read [of store s] r by simp
  ultimately show ?thesis using uov_write [of store s'] uov_trans by metis
qed

lemma uov_remove: "unchanged_or_valid store s (snd (remove_config store p s))"
proof -
  obtain c s' where r: "read_config store s = (Inr c, s')" using read_total by blast
  then have "snd (remove_config store p s) = snd (write_config store (obj_del (to_js c) p) s')"
    by (simp add: remove_config_def)
  moreover have "unchanged_or_valid store s s'" using uov_read [of store s] r by simp
  ultimately show ?thesis using uov_write [of store s'] uov_trans by metis
qed

lemma uov_clear: "unchanged_or_valid store s (snd (clear_config store s))"
  by (simp add: clear_config_def parse_defaults uov_write)

text \<open>
  Claim C9. Every document that \<open>read\<close> returns has \<open>version = 1\<close> and a team
  that is null or a string for which the credential store gave a (non-empty) secret
  when the document was validated; every document that a successful \<open>write\<close> puts
  into the file is such a document; and after any operation of the module the file's
  contents are what they were before the call or such a document.
\<close>

theorem document_invariant:
  "(fst (read_config store s) = Inr c \<longrightarrow>
      version c = 1
      \<and> (team c = None \<or> (\<exists>t k. team c = Some t \<and> credentials_get store t = Some k \<and> k \<noteq> [])))
   \<and> (fst (write_config store doc s) = Inr () \<longrightarrow>
      (\<exists>c'. contents (snd (write_config store doc s)) = Some (Yaml (to_js c'))
         \<and> version c' = 1
         \<and> (team c' = None
            \<or> (\<exists>t k. team c' = Some t \<and> credentials_get store t = Some k \<and> k \<noteq> []))))
   \<and> (s' \<in> {snd (read_config store s), snd (write_config store doc s),
             snd (get_config store p s), snd (set_config store p v s),
             snd (remove_config store p s), snd (clear_config store s)} \<longrightarrow>
      contents s' = contents s
      \<or> (\<exists>c'. contents s' = Some (Yaml (to_js c'))
         \<and> version c' = 1
         \<and> (team c' = None
            \<or> (\<exists>t k. team c' = Some t \<and> credentials_get store t = Some k \<and> k \<noteq> []))))"
proof -
  have inv: "valid_config store x \<Longrightarrow>
      version x = 1
      \<and> (team x = None \<or> (\<exists>t k. team x = Some t \<and> credentials_get store t = Some k \<and> k \<noteq> []))"
    for x
    by (cases "team x") (auto simp: valid_config_def truthy_def split: option.splits)
  have a: "fst (read_config store s) = Inr c \<Longrightarrow> valid_config store c"
    using read_total [of store s] by auto
  have b: "fst (write_config store doc s) = Inr () \<Longrightarrow>
      \<exists>c'. contents (snd (write_config store doc s)) = Some (Yaml (to_js c')) \<and> valid_config store c'"
    using write_contents [of store doc s] by auto
  have c: "s' \<in> {snd (read_config store s), snd (write_config store doc s),
             snd (get_config store p s), snd (set_config store p v s),
             snd (remove_config store p s), snd (clear_config store s)} \<Longrightarrow>
      unchanged_or_valid store s s'"
    using uov_read uov_write uov_get uov_set uov_remove uov_clear by auto
  show ?thesis
  proof (intro conjI impI)
    assume "fst (read_config store s) = Inr c"
    then show "version c = 1" using a inv by blast
  next
    assume "fst (read_config store s) = Inr c"
    then show "team c = None \<or> (\<exists>t k. team c = Some t \<and> credentials_get store t = Some k \<and> k \<noteq> [])"
      using a inv by blast
  next
    assume "fst (write_config store doc s) = Inr ()"
    then show "\<exists>c'. contents (snd (write_config store doc s)) = Some (Yaml (to_js c'))
         \<and> version c' = 1
         \<and> (team c' = None
            \<or> (\<exists>t k. team c' = Some t \<and> credentials_get store t = Some k \<and> k \<noteq> []))"
      using b inv by blast
  next
    assume "s' \<in> {snd (read_config store s), snd (write_config store doc s),
             snd (get_config store p s), snd (set_config store p v s),
             snd (remove_config store p s), snd (clear_config store s)}"
    then have "unchanged_or_valid store s s'" by (rule c)
    then show "contents s' = contents s
      \<or> (\<exists>c'. contents s' = Some (Yaml (to_js c'))
         \<and> version c' = 1
         \<and> (team c' = None
            \<or> (\<exists>t k. team c' = Some t \<and> credentials_get store t = Some k \<and> k \<noteq> [])))"
      unfolding unchanged_or_valid_def using inv by blast
  qed
qed

theorem document_invariant_witness:
  "fst (read_config [(''acme'', ''key-1'')]
          \<lparr>dir_exists = True,
           contents = Some (Yaml (JObj [(''version'', JNum 1), (''team'', JNull)]))\<rparr>) =
       Inr \<lparr>version = 1, team = None\<rparr>
   \<and> fst (write_config [(''acme'', ''key-1'')] (JObj [(''team'', JStr ''acme'')])
          \<lparr>dir_exists = True,
           contents = Some (Yaml (JObj [(''version'', JNum 1), (''team'', JNull)]))\<rparr>) = Inr ()
   \<and> contents (snd (write_config [(''acme'', ''key-1'')] (JObj [(''team'', JStr ''acme'')])
          \<lparr>dir_exists = True,
           contents = Some (Yaml (JObj [(''version'', JNum 1), (''team'', JNull)]))\<rparr>)) =
       Some (Yaml (to_js \<lparr>version = 1, team = Some ''acme''\<rparr>))
   \<and> credentials_get [(''acme'', ''key-1'')] ''acme'' = Some ''key-1''
   \<and> contents (snd (set_config [(''acme'', ''key-1'')] ''team'' (JStr ''acme'')
          \<lparr>dir_exists = True,
           contents = Some (Yaml (JObj [(''version'', JNum 1), (''team'', JNull)]))\<rparr>)) =
       Some (Yaml (to_js \<lparr>version = 1, team = Some ''acme''\<rparr>))"
  using document_invariant
    [where store = "[(''acme'', ''key-1'')]"
       and s = "\<lparr>dir_exists = True,
           contents = Some (Yaml (JObj [(''version'', JNum 1), (''team'', JNull)]))\<rparr>"
       and c = "\<lparr>version = 1, team = None\<rparr>"
       and doc = "JObj [(''team'', JStr ''acme'')]"
       and s' = "snd (set_config [(''acme'', ''key-1'')] ''team'' (JStr ''acme'')
          \<lparr>dir_exists = True,
           contents = Some (Yaml (JObj [(''version'', JNum 1), (''team'', JNull)]))\<rparr>)"
       and p = "''team''" and v = "JStr ''acme''"]
  by (simp add: read_config_def write_config_def set_config_def schema_parseAsync_def
      schema_team_def schema_version_def team_transform_def truthy_def credentials_get_def
      to_js_def obj_set_def)

lemma parse_version_only: "schema_parseAsync store (JObj [(''version'', JNum 1)]) = Inr defaults"
  by (simp add: schema_parseAsync_def schema_team_def schema_version_def defaults_def)

lemma remove_team:
  "remove_config store ''team'' s =
     (Inr (), s\<lparr>dir_exists := True, contents := Some (Yaml (to_js defaults))\<rparr>)"
proof (rule read_cases [of store s])
  fix c
  assume r: "read_config store s = (Inr c, s)" and v: "valid_config store c"
  from v have "version c = 1" by (simp add: valid_config_def)
  with r show ?thesis
    by (simp add: remove_config_def obj_del_team write_valid [OF parse_version_only])
next
  assume "read_config store s =
      (Inr defaults, s\<lparr>dir_exists := True, contents := Some (Yaml (to_js defaults))\<rparr>)"
  then show ?thesis
    by (simp add: remove_config_def obj_del_team write_valid [OF parse_version_only]
        defaults_def)
qed

lemma parse_team_value:
  assumes "v = JNull \<or> (\<exists>t. v = JStr t \<and> truthy (credentials_get store t))"
  shows "schema_parseAsync store (JObj [(''version'', JNum 1), (''team'', v)]) =
     Inr \<lparr>version = 1, team = (case v of JStr t \<Rightarrow> Some t | _ \<Rightarrow> None)\<rparr>"
  using assms
  by (auto simp: schema_parseAsync_def schema_team_def schema_version_def team_transform_def)

lemma set_team:
  assumes "schema_parseAsync store (JObj [(''version'', JNum 1), (''team'', v)]) = r"
  shows "set_config store ''team'' v s =
     (case r of
        Inl e \<Rightarrow> (Inl e, (snd (read_config store s))\<lparr>dir_exists := True\<rparr>)
      | Inr c \<Rightarrow> (Inr (), s\<lparr>dir_exists := True, contents := Some (Yaml (to_js c))\<rparr>))"
proof (rule read_cases [of store s])
  fix c
  assume r: "read_config store s = (Inr c, s)" and v: "valid_config store c"
  from v have "version c = 1" by (simp add: valid_config_def)
  with r assms show ?thesis
    by (cases r) (simp_all add: set_config_def obj_set_team write_valid write_invalid)
next
  assume "read_config store s =
      (Inr defaults, s\<lparr>dir_exists := True, contents := Some (Yaml (to_js defaults))\<rparr>)"
  with assms show ?thesis
    by (cases r)
      (simp_all add: set_config_def obj_set_team write_valid write_invalid defaults_def)
qed

lemma get_team_stored:
  assumes "contents s = Some (Yaml (to_js c))" and "valid_config store c"
  shows "get_config store ''team'' s = (Inr (case team c of None \<Rightarrow> JNull | Some t \<Rightarrow> JStr t), s)"
  using assms by (simp add: get_config_def read_valid [OF _ parse_to_js] obj_get_team)

text \<open>
  Claim C7. For every enumerated path, \<open>remove\<close> succeeds and leaves the document
  with the default (\<open>team = null\<close>) at that path, present and not absent, so that
  \<open>get\<close> reads \<open>null\<close>; a second \<open>remove\<close> right after the first returns the
  same result and leaves the same file system: it changes nothing.
\<close>

theorem remove_idempotent:
  assumes "p \<in> set paths"
  shows "remove_config store p (snd (remove_config store p s)) = remove_config store p s
     \<and> fst (remove_config store p s) = Inr ()
     \<and> contents (snd (remove_config store p s)) =
         Some (Yaml (JObj [(''version'', JNum 1), (''team'', JNull)]))
     \<and> fst (get_config store p (snd (remove_config store p s))) = Inr JNull"
proof -
  from assms have p: "p = ''team''" by (simp add: paths_team)
  let ?s1 = "s\<lparr>dir_exists := True, contents := Some (Yaml (to_js defaults))\<rparr>"
  have one: "remove_config store ''team'' s = (Inr (), ?s1)" by (rule remove_team)
  have two: "remove_config store ''team'' ?s1 = (Inr (), ?s1)" by (simp add: remove_team)
  have got: "get_config store ''team'' ?s1 = (Inr JNull, ?s1)"
    using get_team_stored [of ?s1 defaults store]
    by (simp add: valid_defaults) (simp add: defaults_def)
  show ?thesis
    unfolding p using one two got by (simp add: to_js_def defaults_def)
qed

theorem remove_idempotent_witness:
  "''team'' \<in> set paths
   \<and> remove_config [(''acme'', ''key-1'')] ''team''
        (snd (remove_config [(''acme'', ''key-1'')] ''team''
          \<lparr>dir_exists = True,
           contents = Some (Yaml (JObj [(''version'', JNum 1), (''team'', JStr ''acme'')]))\<rparr>)) =
       (Inr (), \<lparr>dir_exists = True,
           contents = Some (Yaml (JObj [(''version'', JNum 1), (''team'', JNull)]))\<rparr>)
   \<and> remove_config [(''acme'', ''key-1'')] ''team''
          \<lparr>dir_exists = True,
           contents = Some (Yaml (JObj [(''version'', JNum 1), (''team'', JStr ''acme'')]))\<rparr> =
       (Inr (), \<lparr>dir_exists = True,
           contents = Some (Yaml (JObj [(''version'', JNum 1), (''team'', JNull)]))\<rparr>)"
proof -
  have h: "''team'' \<in> set paths" by (simp add: paths_team)
  show ?thesis
    using h remove_idempotent [OF h, of "[(''acme'', ''key-1'')]"
      "\<lparr>dir_exists = True,
           contents = Some (Yaml (JObj [(''version'', JNum 1), (''team'', JStr ''acme'')]))\<rparr>"]
    by (simp add: remove_team defaults_def to_js_def)
qed

text \<open>
  Claim C5, as the code has it. For every enumerated path \<open>p\<close> and every value that
  is null or a string for which the credential store holds a non-empty secret,
  \<open>set(p, v)\<close> succeeds and a following \<open>get(p)\<close> returns \<open>v\<close>, whatever the
  file system held before.
\<close>

theorem set_get_roundtrip:
  assumes "p \<in> set paths"
    and "v = JNull \<or> (\<exists>t k. v = JStr t \<and> credentials_get store t = Some k \<and> k \<noteq> [])"
  shows "fst (set_config store p v s) = Inr ()
     \<and> fst (get_config store p (snd (set_config store p v s))) = Inr v"
proof -
  from assms(1) have p: "p = ''team''" by (simp add: paths_team)
  from assms(2) have ok: "v = JNull \<or> (\<exists>t. v = JStr t \<and> truthy (credentials_get store t))"
    by (auto simp: truthy_def)
  let ?c = "\<lparr>version = 1, team = (case v of JStr t \<Rightarrow> Some t | _ \<Rightarrow> None)\<rparr>"
  let ?s1 = "s\<lparr>dir_exists := True, contents := Some (Yaml (to_js ?c))\<rparr>"
  have parsed: "schema_parseAsync store (JObj [(''version'', JNum 1), (''team'', v)]) = Inr ?c"
    using ok by (rule parse_team_value)
  have st: "set_config store ''team'' v s = (Inr (), ?s1)"
    using set_team [OF parsed, of s] by simp
  have valid: "valid_config store ?c"
    using ok by (auto simp: valid_config_def)
  have "get_config store ''team'' ?s1 = (Inr (case team ?c of None \<Rightarrow> JNull | Some t \<Rightarrow> JStr t), ?s1)"
    by (rule get_team_stored) (simp_all add: valid)
  moreover have "(case team ?c of None \<Rightarrow> JNull | Some t \<Rightarrow> JStr t) = v"
    using ok by auto
  ultimately show ?thesis unfolding p using st by simp
qed

theorem set_get_roundtrip_witness:
  "''team'' \<in> set paths
   \<and> credentials_get [(''acme'', ''key-1'')] ''acme'' = Some ''key-1''
   \<and> fst (set_config [(''acme'', ''key-1'')] ''team'' (JStr ''acme'')
        \<lparr>dir_exists = False, contents = None\<rparr>) = Inr ()
   \<and> fst (get_config [(''acme'', ''key-1'')] ''team''
        (snd (set_config [(''acme'', ''key-1'')] ''team'' (JStr ''acme'')
           \<lparr>dir_exists = False, contents = None\<rparr>))) = Inr (JStr ''acme'')"
proof -
  have h: "''team'' \<in> set paths" by (simp add: paths_team)
  have k: "credentials_get [(''acme'', ''key-1'')] ''acme'' = Some ''key-1''"
    by (simp add: credentials_get_def)
  have v: "JStr ''acme'' = JNull
     \<or> (\<exists>t k. JStr ''acme'' = JStr t \<and> credentials_get [(''acme'', ''key-1'')] t = Some k \<and> k \<noteq> [])"
    using k by simp
  show ?thesis
    using h k set_get_roundtrip [OF h v, of "\<lparr>dir_exists = False, contents = None\<rparr>"]
    by simp
qed

text \<open>
  Claim C5 as the spec states it fails for a team whose stored secret is the empty
  string: the store has an entry for the team, yet the schema's test of the secret is
  a truthiness test, \<open>set\<close> throws and \<open>get\<close> returns \<open>null\<close>, not the team.
\<close>

theorem set_get_empty_secret:
  "''team'' \<in> set paths
   \<and> credentials_get [(''acme'', [])] ''acme'' = Some []
   \<and> fst (set_config [(''acme'', [])] ''team'' (JStr ''acme'')
        \<lparr>dir_exists = False, contents = None\<rparr>) =
       Inl (ConfigError (team_not_found [''acme''] ''acme''))
   \<and> fst (get_config [(''acme'', [])] ''team''
        (snd (set_config [(''acme'', [])] ''team'' (JStr ''acme'')
           \<lparr>dir_exists = False, contents = None\<rparr>))) = Inr JNull"
  by (simp add: paths_team credentials_get_def credentials_list_def set_config_def
      get_config_def read_config_def write_config_def schema_parseAsync_def schema_team_def
      schema_version_def team_transform_def truthy_def to_js_def obj_set_def obj_get_def)

section \<open>Setting the team\<close>

text \<open>The two examples that the spec gives for \<open>closest\<close>.\<close>

lemma closest_examples:
  "closest [''alpha'', ''beta'', ''gamma''] ''alhpa'' = Some ''alpha'' \<and> closest [] ''x'' = None"
  by code_simp

lemma closest_Some: "cs \<noteq> [] \<Longrightarrow> \<exists>c. closest cs i = Some c"
  by (cases cs) (auto split: option.splits)

lemma closest_min:
  "closest cs i = Some c \<Longrightarrow> c \<in> set cs \<and> (\<forall>x\<in>set cs. levenshtein i c \<le> levenshtein i x)"
proof (induction cs arbitrary: c)
  case Nil
  then show ?case by simp
next
  case (Cons a cs)
  show ?case
  proof (cases "closest cs i")
    case None
    then have "cs = []" by (cases cs) (auto split: option.splits if_splits)
    with Cons.prems None show ?thesis by simp
  next
    case (Some d)
    from Cons.IH [OF Some] have d: "d \<in> set cs" "\<forall>x\<in>set cs. levenshtein i d \<le> levenshtein i x"
      by simp_all
    show ?thesis
    proof (cases "levenshtein i a \<le> levenshtein i d")
      case True
      with Some Cons.prems have "c = a" by simp
      with True d show ?thesis by (auto intro: order_trans)
    next
      case False
      with Some Cons.prems have "c = d" by simp
      with False d show ?thesis by auto
    qed
  qed
qed

lemma names_team: "sublist v (team_not_found teams v)"
  unfolding team_not_found_def by (metis append.assoc sublist_appendI)

lemma tells_to_log_in:
  "sublist (''Are you logged in? Try running '' @ [CHR 0x22] @ bold ''pspace login''
      @ [CHR 0x22] @ '' first.'') (team_not_found teams v)"
proof -
  have "team_not_found teams v =
      (''A team named '' @ [CHR 0x22] @ v @ [CHR 0x22]
        @ '' was not found in your credentials file. '' @ didYouMean teams v @ [CHR 0x0A])
      @ (''Are you logged in? Try running '' @ [CHR 0x22] @ bold ''pspace login''
          @ [CHR 0x22] @ '' first.'')"
    by (simp add: team_not_found_def)
  then show ?thesis by (metis sublist_append_leftI)
qed

lemma hint_in_message:
  assumes "closest teams v = Some c" and "c \<noteq> []"
  shows "sublist (''Did you mean '' @ bold c @ ''?'') (team_not_found teams v)"
proof -
  have "team_not_found teams v =
      (''A team named '' @ [CHR 0x22] @ v @ [CHR 0x22]
        @ '' was not found in your credentials file. '' @ [CHR 0x0A, CHR 0x0A])
      @ (''Did you mean '' @ bold c @ ''?'')
      @ ([CHR 0x0A] @ ''Are you logged in? Try running '' @ [CHR 0x22] @ bold ''pspace login''
          @ [CHR 0x22] @ '' first.'')"
    using assms by (simp add: team_not_found_def didYouMean_def)
  then show ?thesis by (metis sublist_appendI)
qed

text \<open>
  Claim C4, as the code has it. For every string \<open>t\<close>: if the credential store gives
  no secret or the empty secret for \<open>t\<close>, then \<open>set("team", t)\<close> fails with the
  \<open>ConfigError\<close> whose message names \<open>t\<close> and tells the user to log in; when at
  least one team is known, \<open>closest\<close> picks a known team at the least edit distance
  from \<open>t\<close>, and the message holds it as the "Did you mean" hint unless it is the
  empty name. If the store gives a non-empty secret for \<open>t\<close>, then
  \<open>set("team", t)\<close> succeeds and a following \<open>get("team")\<close> returns \<open>t\<close>.
\<close>

theorem set_team_checks_credentials:
  "((credentials_get store t = None \<or> credentials_get store t = Some []) \<longrightarrow>
      fst (set_config store ''team'' (JStr t) s) =
        Inl (ConfigError (team_not_found (credentials_list store) t))
      \<and> sublist t (team_not_found (credentials_list store) t)
      \<and> sublist (''Are you logged in? Try running '' @ [CHR 0x22] @ bold ''pspace login''
            @ [CHR 0x22] @ '' first.'') (team_not_found (credentials_list store) t)
      \<and> (credentials_list store \<noteq> [] \<longrightarrow>
           (\<exists>c. closest (credentials_list store) t = Some c
              \<and> c \<in> set (credentials_list store)
              \<and> (\<forall>x\<in>set (credentials_list store). levenshtein t c \<le> levenshtein t x)
              \<and> (c \<noteq> [] \<longrightarrow>
                   sublist (''Did you mean '' @ bold c @ ''?'')
                     (team_not_found (credentials_list store) t)))))
   \<and> ((\<exists>k. credentials_get store t = Some k \<and> k \<noteq> []) \<longrightarrow>
        fst (set_config store ''team'' (JStr t) s) = Inr ()
        \<and> fst (get_config store ''team'' (snd (set_config store ''team'' (JStr t) s))) =
            Inr (JStr t))"
proof (intro conjI impI)
  assume "credentials_get store t = None \<or> credentials_get store t = Some []"
  then have "\<not> truthy (credentials_get store t)" by (auto simp: truthy_def)
  then have "schema_parseAsync store (JObj [(''version'', JNum 1), (''team'', JStr t)]) =
      Inl (ConfigError (team_not_found (credentials_list store) t))"
    by (rule unknown_team_rejected)
  from set_team [OF this, of s]
  show "fst (set_config store ''team'' (JStr t) s) =
      Inl (ConfigError (team_not_found (credentials_list store) t))"
    by simp
next
  show "sublist t (team_not_found (credentials_list store) t)" by (rule names_team)
next
  show "sublist (''Are you logged in? Try running '' @ [CHR 0x22] @ bold ''pspace login''
      @ [CHR 0x22] @ '' first.'') (team_not_found (credentials_list store) t)"
    by (rule tells_to_log_in)
next
  assume "credentials_list store \<noteq> []"
  then obtain c where c: "closest (credentials_list store) t = Some c"
    using closest_Some by blast
  with closest_min [OF c] hint_in_message [OF c]
  show "\<exists>c. closest (credentials_list store) t = Some c
      \<and> c \<in> set (credentials_list store)
      \<and> (\<forall>x\<in>set (credentials_list store). levenshtein t c \<le> levenshtein t x)
      \<and> (c \<noteq> [] \<longrightarrow>
           sublist (''Did you mean '' @ bold c @ ''?'') (team_not_found (credentials_list store) t))"
    by blast
next
  assume k: "\<exists>k. credentials_get store t = Some k \<and> k \<noteq> []"
  then have v: "JStr t = JNull \<or> (\<exists>u. JStr t = JStr u \<and> truthy (credentials_get store u))"
    by (auto simp: truthy_def)
  from set_team [OF parse_team_value [OF v], of s]
  show "fst (set_config store ''team'' (JStr t) s) = Inr ()" by simp
next
  assume k: "\<exists>k. credentials_get store t = Some k \<and> k \<noteq> []"
  then have v: "JStr t = JNull \<or> (\<exists>u. JStr t = JStr u \<and> truthy (credentials_get store u))"
    by (auto simp: truthy_def)
  let ?c = "\<lparr>version = 1, team = Some t\<rparr>"
  let ?s1 = "s\<lparr>dir_exists := True, contents := Some (Yaml (to_js ?c))\<rparr>"
  from set_team [OF parse_team_value [OF v], of s]
  have st: "set_config store ''team'' (JStr t) s = (Inr (), ?s1)" by simp
  have "valid_config store ?c" using k by (auto simp: valid_config_def truthy_def)
  then have "get_config store ''team'' ?s1 = (Inr (JStr t), ?s1)"
    using get_team_stored [of ?s1 ?c store] by simp
  with st show "fst (get_config store ''team'' (snd (set_config store ''team'' (JStr t) s))) =
      Inr (JStr t)"
    by simp
qed

theorem set_team_checks_credentials_witness:
  "credentials_get [(''acme'', ''key-1''), (''beta'', ''key-2'')] ''acmee'' = None
   \<and> fst (set_config [(''acme'', ''key-1''), (''beta'', ''key-2'')] ''team'' (JStr ''acmee'')
        \<lparr>dir_exists = False, contents = None\<rparr>) =
       Inl (ConfigError (team_not_found [''acme'', ''beta''] ''acmee''))
   \<and> closest [''acme'', ''beta''] ''acmee'' = Some ''acme''
   \<and> sublist (''Did you mean '' @ bold ''acme'' @ ''?'')
        (team_not_found [''acme'', ''beta''] ''acmee'')
   \<and> credentials_get [(''acme'', ''key-1''), (''beta'', ''key-2'')] ''acme'' = Some ''key-1''
   \<and> fst (set_config [(''acme'', ''key-1''), (''beta'', ''key-2'')] ''team'' (JStr ''acme'')
        \<lparr>dir_exists = False, contents = None\<rparr>) = Inr ()
   \<and> fst (get_config [(''acme'', ''key-1''), (''beta'', ''key-2'')] ''team''
        (snd (set_config [(''acme'', ''key-1''), (''beta'', ''key-2'')] ''team'' (JStr ''acme'')
           \<lparr>dir_exists = False, contents = None\<rparr>))) = Inr (JStr ''acme'')"
proof -
  let ?store = "[(''acme'', ''key-1''), (''beta'', ''key-2'')]"
  let ?s = "\<lparr>dir_exists = False, contents = None\<rparr>"
  have l: "credentials_list ?store = [''acme'', ''beta'']" by (simp add: credentials_list_def)
  have a: "credentials_get ?store ''acmee'' = None" by (simp add: credentials_get_def)
  have b: "credentials_get ?store ''acme'' = Some ''key-1''" by (simp add: credentials_get_def)
  have c: "closest [''acme'', ''beta''] ''acmee'' = Some ''acme''" by simp
  from set_team_checks_credentials [of ?store "''acmee''" ?s] a l c
  have 1: "fst (set_config ?store ''team'' (JStr ''acmee'') ?s) =
        Inl (ConfigError (team_not_found [''acme'', ''beta''] ''acmee''))
      \<and> sublist (''Did you mean '' @ bold ''acme'' @ ''?'')
          (team_not_found [''acme'', ''beta''] ''acmee'')"
    by simp
  from set_team_checks_credentials [of ?store "''acme''" ?s] b
  have 2: "fst (set_config ?store ''team'' (JStr ''acme'') ?s) = Inr ()
      \<and> fst (get_config ?store ''team'' (snd (set_config ?store ''team'' (JStr ''acme'') ?s))) =
          Inr (JStr ''acme'')"
    by simp
  from a b c 1 2 show ?thesis by simp
qed

text \<open>
  Claim C4 as the spec states it fails for a team whose stored secret is the empty
  string: the store has an entry for the team and \<open>set("team", t)\<close> still fails.
\<close>

theorem set_team_empty_secret:
  "credentials_get [(''acme'', [])] ''acme'' = Some []
   \<and> fst (set_config [(''acme'', [])] ''team'' (JStr ''acme'')
        \<lparr>dir_exists = True,
         contents = Some (Yaml (JObj [(''version'', JNum 1), (''team'', JNull)]))\<rparr>) =
       Inl (ConfigError (team_not_found [''acme''] ''acme''))"
  by (simp add: credentials_get_def credentials_list_def set_config_def
      read_config_def write_config_def schema_parseAsync_def schema_team_def
      schema_version_def team_transform_def truthy_def to_js_def obj_set_def)

section \<open>Properties of the credential resolution\<close>

lemma flags_key:
  "apply_flags opt e ''PAPERSPACE_API_KEY'' =
     (if truthy (apiKey opt) then apiKey opt else e ''PAPERSPACE_API_KEY'')"
  by (auto simp: apply_flags_def Let_def truthy_def split: option.splits)

lemma act_from_environment:
  "truthy (apiKey opt) \<or> truthy (e ''PAPERSPACE_API_KEY'') \<Longrightarrow>
     act store opt e s = (Inr (), apply_flags opt e, s)"
  by (auto simp: act_def Let_def flags_key)

lemma get_team_of_read:
  "read_config store s = (Inr c, s') \<Longrightarrow>
     get_config store ''team'' s = (Inr (case team c of None \<Rightarrow> JNull | Some t \<Rightarrow> JStr t), s')"
  by (simp add: get_config_def obj_get_team)

lemma act_from_config:
  assumes "\<not> truthy (apiKey opt)" and "\<not> truthy (e ''PAPERSPACE_API_KEY'')"
    and "read_config store s = (Inr c, s')" and "valid_config store c"
  shows "act store opt e s =
     (case team c of
        None \<Rightarrow> (Inr (), apply_flags opt e, s')
      | Some t \<Rightarrow>
          if t \<noteq> []
          then (Inr (), (apply_flags opt e)(''PAPERSPACE_API_KEY'' \<mapsto> the (credentials_get store t)), s')
          else (Inr (), apply_flags opt e, s'))"
proof (cases "team c")
  case None
  with assms show ?thesis
    by (simp add: act_def Let_def flags_key get_team_of_read)
next
  case (Some t)
  with assms(4) obtain k where "credentials_get store t = Some k"
    by (auto simp: valid_config_def truthy_def split: option.splits)
  with Some assms show ?thesis
    by (simp add: act_def Let_def flags_key get_team_of_read)
qed

lemma act_ok: "fst (act store opt e s) = Inr ()"
proof (cases "truthy (apiKey opt) \<or> truthy (e ''PAPERSPACE_API_KEY'')")
  case True
  then show ?thesis by (simp add: act_from_environment)
next
  case False
  obtain c s' where r: "read_config store s = (Inr c, s')" and v: "valid_config store c"
    using read_total by blast
  from False have "\<not> truthy (apiKey opt)" "\<not> truthy (e ''PAPERSPACE_API_KEY'')" by simp_all
  from act_from_config [where e = e, OF this r v] show ?thesis
    by (simp split: option.splits)
qed

lemma act_credential:
  "credential (fst (snd (act store opt e s))) =
     spec_resolve (apiKey opt) (e ''PAPERSPACE_API_KEY'') (team_credential store s)"
proof (cases "truthy (apiKey opt) \<or> truthy (e ''PAPERSPACE_API_KEY'')")
  case True
  then show ?thesis
    by (auto simp: act_from_environment credential_def flags_key spec_resolve_def)
next
  case False
  obtain c s' where r: "read_config store s = (Inr c, s')" and v: "valid_config store c"
    using read_total by blast
  from False have f: "\<not> truthy (apiKey opt)" "\<not> truthy (e ''PAPERSPACE_API_KEY'')" by simp_all
  show ?thesis
  proof (cases "team c")
    case None
    with act_from_config [where e = e, OF f r v] f show ?thesis
      by (simp add: credential_def flags_key spec_resolve_def team_credential_def
          get_team_of_read [OF r] truthy_def)
  next
    case (Some t)
    with v obtain k where k: "credentials_get store t = Some k" "k \<noteq> []"
      by (auto simp: valid_config_def truthy_def split: option.splits)
    with Some act_from_config [where e = e, OF f r v] f show ?thesis
      by (simp add: credential_def flags_key spec_resolve_def team_credential_def
          get_team_of_read [OF r] truthy_def)
  qed
qed

lemma act_fs:
  "snd (snd (act store opt e s)) =
     (if truthy (apiKey opt) \<or> truthy (e ''PAPERSPACE_API_KEY'') then s
      else snd (read_config store s))"
proof (cases "truthy (apiKey opt) \<or> truthy (e ''PAPERSPACE_API_KEY'')")
  case True
  then show ?thesis by (simp add: act_from_environment)
next
  case False
  obtain c s' where r: "read_config store s = (Inr c, s')" and v: "valid_config store c"
    using read_total by blast
  from False have f: "\<not> truthy (apiKey opt)" "\<not> truthy (e ''PAPERSPACE_API_KEY'')" by simp_all
  from act_from_config [where e = e, OF f r v] r False show ?thesis
    by (simp split: option.splits)
qed

text \<open>
  Claim C3, as the code has it. Resolution never fails, and the credential it leaves
  in the environment is the first non-empty value among the override flag, the
  \<open>PAPERSPACE_API_KEY\<close> variable and the stored secret of the config's team, in that
  order, where the config has a team when \<open>get("team")\<close> gives a non-empty string
  (the test is \<open>if (team)\<close>); there is no credential when all three are absent. A
  non-empty override is the result whatever the variable held. When the override or
  the variable yields a value the config is not consulted: the result is the
  environment after the flags, the same for every credential store, and the file
  system is untouched.
\<close>

theorem credential_precedence:
  "fst (act store opt e s) = Inr ()
   \<and> credential (fst (snd (act store opt e s))) =
       spec_resolve (apiKey opt) (e ''PAPERSPACE_API_KEY'') (team_credential store s)
   \<and> (truthy (apiKey opt) \<longrightarrow> credential (fst (snd (act store opt e s))) = apiKey opt)
   \<and> (truthy (apiKey opt) \<or> truthy (e ''PAPERSPACE_API_KEY'') \<longrightarrow>
        act store opt e s = (Inr (), apply_flags opt e, s))"
proof (intro conjI impI)
  show "fst (act store opt e s) = Inr ()" by (rule act_ok)
next
  show "credential (fst (snd (act store opt e s))) =
      spec_resolve (apiKey opt) (e ''PAPERSPACE_API_KEY'') (team_credential store s)"
    by (rule act_credential)
next
  assume "truthy (apiKey opt)"
  then show "credential (fst (snd (act store opt e s))) = apiKey opt"
    by (simp add: act_credential spec_resolve_def)
next
  assume "truthy (apiKey opt) \<or> truthy (e ''PAPERSPACE_API_KEY'')"
  then show "act store opt e s = (Inr (), apply_flags opt e, s)"
    by (rule act_from_environment)
qed

theorem credential_precedence_witness:
  "credential (fst (snd (act [(''acme'', ''K3'')]
       \<lparr>debug = None, apiKey = Some ''K1'', apiUrl = None\<rparr>
       [''PAPERSPACE_API_KEY'' \<mapsto> ''K2'']
       \<lparr>dir_exists = True,
        contents = Some (Yaml (JObj [(''version'', JNum 1), (''team'', JStr ''acme'')]))\<rparr>))) =
     Some ''K1''
   \<and> credential (fst (snd (act [(''acme'', ''K3'')]
       \<lparr>debug = None, apiKey = None, apiUrl = None\<rparr>
       [''PAPERSPACE_API_KEY'' \<mapsto> ''K2'']
       \<lparr>dir_exists = True,
        contents = Some (Yaml (JObj [(''version'', JNum 1), (''team'', JStr ''acme'')]))\<rparr>))) =
     Some ''K2''
   \<and> act [(''acme'', ''K3'')] \<lparr>debug = None, apiKey = None, apiUrl = None\<rparr>
       [''PAPERSPACE_API_KEY'' \<mapsto> ''K2'']
       \<lparr>dir_exists = True,
        contents = Some (Yaml (JObj [(''version'', JNum 1), (''team'', JStr ''acme'')]))\<rparr> =
     (Inr (), [''PAPERSPACE_API_KEY'' \<mapsto> ''K2''],
      \<lparr>dir_exists = True,
       contents = Some (Yaml (JObj [(''version'', JNum 1), (''team'', JStr ''acme'')]))\<rparr>)
   \<and> credential (fst (snd (act [(''acme'', ''K3'')]
       \<lparr>debug = None, apiKey = None, apiUrl = None\<rparr>
       Map.empty
       \<lparr>dir_exists = True,
        contents = Some (Yaml (JObj [(''version'', JNum 1), (''team'', JStr ''acme'')]))\<rparr>))) =
     Some ''K3''
   \<and> credential (fst (snd (act [(''acme'', ''K3'')]
       \<lparr>debug = None, apiKey = None, apiUrl = None\<rparr>
       Map.empty \<lparr>dir_exists = False, contents = None\<rparr>))) = None
   \<and> fst (act [(''acme'', ''K3'')] \<lparr>debug = None, apiKey = None, apiUrl = None\<rparr>
       Map.empty \<lparr>dir_exists = False, contents = None\<rparr>) = Inr ()"
proof -
  let ?store = "[(''acme'', ''K3'')]"
  let ?s = "\<lparr>dir_exists = True,
        contents = Some (Yaml (JObj [(''version'', JNum 1), (''team'', JStr ''acme'')]))\<rparr>"
  let ?none = "\<lparr>debug = None, apiKey = None, apiUrl = None\<rparr>"
  note ok = conjunct1 [OF credential_precedence]
  note eq = conjunct1 [OF conjunct2 [OF credential_precedence]]
  note override = conjunct1 [OF conjunct2 [OF conjunct2 [OF credential_precedence]], rule_format]
  note untouched = conjunct2 [OF conjunct2 [OF conjunct2 [OF credential_precedence]], rule_format]
  have t: "team_credential ?store ?s = Some ''K3''"
    by (simp add: team_credential_def get_config_def read_config_def schema_parseAsync_def
        schema_team_def schema_version_def team_transform_def truthy_def credentials_get_def
        to_js_def obj_get_def)
  have t0: "team_credential ?store \<lparr>dir_exists = False, contents = None\<rparr> = None"
    by (simp add: team_credential_def get_config_def read_config_def schema_parseAsync_def
        schema_team_def schema_version_def to_js_def obj_get_def)
  have 1: "credential (fst (snd (act ?store \<lparr>debug = None, apiKey = Some ''K1'', apiUrl = None\<rparr>
       [''PAPERSPACE_API_KEY'' \<mapsto> ''K2''] ?s))) = Some ''K1''"
    by (simp add: override truthy_def)
  have 2: "credential (fst (snd (act ?store ?none [''PAPERSPACE_API_KEY'' \<mapsto> ''K2''] ?s))) =
      Some ''K2''"
    by (simp add: eq spec_resolve_def truthy_def)
  have "truthy (apiKey ?none) \<or> truthy ([''PAPERSPACE_API_KEY'' \<mapsto> ''K2''] ''PAPERSPACE_API_KEY'')"
    by (simp add: truthy_def)
  from untouched [where e = "[''PAPERSPACE_API_KEY'' \<mapsto> ''K2'']", OF this, of ?store ?s]
  have 3: "act ?store ?none [''PAPERSPACE_API_KEY'' \<mapsto> ''K2''] ?s =
      (Inr (), [''PAPERSPACE_API_KEY'' \<mapsto> ''K2''], ?s)"
    by (simp add: apply_flags_def)
  have 4: "credential (fst (snd (act ?store ?none Map.empty ?s))) = Some ''K3''"
    by (simp add: eq t spec_resolve_def truthy_def)
  have 5: "credential (fst (snd (act ?store ?none Map.empty
       \<lparr>dir_exists = False, contents = None\<rparr>))) = None"
    by (simp add: eq t0 spec_resolve_def truthy_def)
  have 6: "fst (act ?store ?none Map.empty \<lparr>dir_exists = False, contents = None\<rparr>) = Inr ()"
    by (rule ok)
  from 1 2 3 4 5 6 show ?thesis by simp
qed

text \<open>
  Claim C3 as the spec states it fails when the config's team is the empty string:
  the config validates, because the store holds a secret under that name, and with
  no override and no key in the environment the third source is the only one; but
  \<open>if (team)\<close> takes the empty name for no team, and there is no credential.
\<close>

theorem empty_team_yields_no_credential:
  "credentials_get [([], ''K3'')] [] = Some ''K3''
   \<and> get_config [([], ''K3'')] ''team''
       \<lparr>dir_exists = True,
        contents = Some (Yaml (JObj [(''version'', JNum 1), (''team'', JStr [])]))\<rparr> =
     (Inr (JStr []),
      \<lparr>dir_exists = True,
       contents = Some (Yaml (JObj [(''version'', JNum 1), (''team'', JStr [])]))\<rparr>)
   \<and> act [([], ''K3'')] \<lparr>debug = None, apiKey = None, apiUrl = None\<rparr> Map.empty
       \<lparr>dir_exists = True,
        contents = Some (Yaml (JObj [(''version'', JNum 1), (''team'', JStr [])]))\<rparr> =
     (Inr (), Map.empty,
      \<lparr>dir_exists = True,
       contents = Some (Yaml (JObj [(''version'', JNum 1), (''team'', JStr [])]))\<rparr>)
   \<and> credential Map.empty = None"
  by (simp add: act_def apply_flags_def credential_def truthy_def get_config_def
      read_config_def schema_parseAsync_def schema_team_def schema_version_def
      team_transform_def credentials_get_def to_js_def obj_get_def)

text \<open>
  Claim C10, as the code has it. With no override and no key in the environment, a
  config file that validates with a non-empty team makes resolution store that team's
  secret under \<open>PAPERSPACE_API_KEY\<close>, and the file system stays as it was. Whenever
  some source yields a credential, the variable holds it after resolution and the file
  system is untouched. In general the file system after resolution is the one that
  \<open>read\<close> leaves when the config is consulted: the file's contents are the same or
  the default document, never anything taken from the flags or the environment.
\<close>

theorem config_source_populates_environment:
  "(\<not> truthy (apiKey opt) \<and> \<not> truthy (e ''PAPERSPACE_API_KEY'')
      \<and> contents s = Some (Yaml v) \<and> schema_parseAsync store v = Inr c
      \<and> team c = Some t \<and> t \<noteq> [] \<longrightarrow>
        (\<exists>k. credentials_get store t = Some k \<and> k \<noteq> []
           \<and> act store opt e s =
               (Inr (), (apply_flags opt e)(''PAPERSPACE_API_KEY'' \<mapsto> k), s)))
   \<and> (spec_resolve (apiKey opt) (e ''PAPERSPACE_API_KEY'') (team_credential store s) = Some k' \<longrightarrow>
        fst (snd (act store opt e s)) ''PAPERSPACE_API_KEY'' = Some k'
        \<and> snd (snd (act store opt e s)) = s)
   \<and> snd (snd (act store opt e s)) =
       (if truthy (apiKey opt) \<or> truthy (e ''PAPERSPACE_API_KEY'') then s
        else snd (read_config store s))
   \<and> (contents (snd (snd (act store opt e s))) = contents s
       \<or> contents (snd (snd (act store opt e s))) =
           Some (Yaml (JObj [(''version'', JNum 1), (''team'', JNull)])))"
proof (intro conjI impI)
  assume a: "\<not> truthy (apiKey opt) \<and> \<not> truthy (e ''PAPERSPACE_API_KEY'')
      \<and> contents s = Some (Yaml v) \<and> schema_parseAsync store v = Inr c
      \<and> team c = Some t \<and> t \<noteq> []"
  then have p: "schema_parseAsync store v = Inr c" by simp
  from a p have r: "read_config store s = (Inr c, s)" by (simp add: read_valid)
  from p have vc: "valid_config store c" by (rule parse_valid)
  from a vc obtain k where k: "credentials_get store t = Some k" "k \<noteq> []"
    by (auto simp: valid_config_def truthy_def split: option.splits)
  from a have f: "\<not> truthy (apiKey opt)" "\<not> truthy (e ''PAPERSPACE_API_KEY'')" by simp_all
  from act_from_config [where e = e, OF f r vc] a k
  show "\<exists>k. credentials_get store t = Some k \<and> k \<noteq> []
      \<and> act store opt e s = (Inr (), (apply_flags opt e)(''PAPERSPACE_API_KEY'' \<mapsto> k), s)"
    by simp
next
  assume a: "spec_resolve (apiKey opt) (e ''PAPERSPACE_API_KEY'') (team_credential store s) = Some k'"
  then have "credential (fst (snd (act store opt e s))) = Some k'"
    by (simp add: act_credential)
  then show "fst (snd (act store opt e s)) ''PAPERSPACE_API_KEY'' = Some k'"
    by (simp add: credential_def split: if_splits)
next
  assume a: "spec_resolve (apiKey opt) (e ''PAPERSPACE_API_KEY'') (team_credential store s) = Some k'"
  show "snd (snd (act store opt e s)) = s"
  proof (cases "truthy (apiKey opt) \<or> truthy (e ''PAPERSPACE_API_KEY'')")
    case True
    then show ?thesis by (simp add: act_fs)
  next
    case False
    with a have tc: "team_credential store s = Some k'"
      by (simp add: spec_resolve_def split: if_splits)
    have "snd (read_config store s) = s"
    proof (rule read_cases [of store s])
      fix c assume "read_config store s = (Inr c, s)"
      then show ?thesis by simp
    next
      assume "read_config store s =
          (Inr defaults, s\<lparr>dir_exists := True, contents := Some (Yaml (to_js defaults))\<rparr>)"
      then have "team_credential store s = None"
        by (simp add: team_credential_def get_team_of_read defaults_def)
      with tc show ?thesis by simp
    qed
    with False show ?thesis by (simp add: act_fs)
  qed
next
  show "snd (snd (act store opt e s)) =
      (if truthy (apiKey opt) \<or> truthy (e ''PAPERSPACE_API_KEY'') then s
       else snd (read_config store s))"
    by (rule act_fs)
next
  show "contents (snd (snd (act store opt e s))) = contents s
      \<or> contents (snd (snd (act store opt e s))) =
          Some (Yaml (JObj [(''version'', JNum 1), (''team'', JNull)]))"
    using read_contents [of store s] by (auto simp: act_fs to_js_def defaults_def)
qed

theorem config_source_populates_environment_witness:
  "act [(''acme'', ''K3'')] \<lparr>debug = None, apiKey = None, apiUrl = None\<rparr> Map.empty
       \<lparr>dir_exists = True,
        contents = Some (Yaml (JObj [(''version'', JNum 1), (''team'', JStr ''acme'')]))\<rparr> =
     (Inr (), [''PAPERSPACE_API_KEY'' \<mapsto> ''K3''],
      \<lparr>dir_exists = True,
       contents = Some (Yaml (JObj [(''version'', JNum 1), (''team'', JStr ''acme'')]))\<rparr>)
   \<and> spec_resolve None None (team_credential [(''acme'', ''K3'')]
       \<lparr>dir_exists = True,
        contents = Some (Yaml (JObj [(''version'', JNum 1), (''team'', JStr ''acme'')]))\<rparr>) =
     Some ''K3''"
proof -
  let ?store = "[(''acme'', ''K3'')]"
  let ?v = "JObj [(''version'', JNum 1), (''team'', JStr ''acme'')]"
  let ?s = "\<lparr>dir_exists = True, contents = Some (Yaml ?v)\<rparr>"
  let ?none = "\<lparr>debug = None, apiKey = None, apiUrl = None\<rparr>"
  have p: "schema_parseAsync ?store ?v = Inr \<lparr>version = 1, team = Some ''acme''\<rparr>"
    by (simp add: schema_parseAsync_def schema_team_def schema_version_def team_transform_def
        truthy_def credentials_get_def)
  have t: "team_credential ?store ?s = Some ''K3''"
    by (simp add: team_credential_def get_config_def read_config_def p
        credentials_get_def to_js_def obj_get_def)
  have f: "apply_flags ?none Map.empty = Map.empty" by (simp add: apply_flags_def)
  from config_source_populates_environment
    [of ?none Map.empty ?s ?v ?store "\<lparr>version = 1, team = Some ''acme''\<rparr>" "''acme''" "''K3''"]
    p t f
  show ?thesis
    by (simp add: truthy_def credentials_get_def spec_resolve_def)
qed

text \<open>
  Claim C10 as stated fails in its last part: resolution can change the team in the
  config file. With no override and no key in the environment the config is read, and
  a file naming a team without a stored secret is overwritten with the defaults.
\<close>

theorem resolution_overwrites_invalid_config:
  "contents (snd (snd (act [] \<lparr>debug = None, apiKey = None, apiUrl = None\<rparr> Map.empty
       \<lparr>dir_exists = True,
        contents = Some (Yaml (JObj [(''version'', JNum 1), (''team'', JStr ''ghost'')]))\<rparr>))) =
     Some (Yaml (JObj [(''version'', JNum 1), (''team'', JNull)]))"
  by (simp add: act_def apply_flags_def truthy_def get_config_def read_config_def
      write_config_def schema_parseAsync_def schema_team_def schema_version_def
      team_transform_def credentials_get_def to_js_def obj_get_def)

section \<open>Properties of the path enumeration\<close>


























end
